theory Spec2Isabelle
  imports Main
begin

section \<open>Python primitives used by \<open>olympia/access/acl.py\<close>\<close>

text \<open>
  Exceptions are values: a function of the module returns \<open>error + 'a\<close>, with \<open>Inl\<close> the
  exception that escapes it. \<open>ValueError\<close> is what the tuple unpacking
  \<^verbatim>\<open>rule_app, rule_action = rule.split(':')\<close> raises when the list has not exactly two
  elements, \<open>AssertionError\<close> is the \<^verbatim>\<open>assert\<close> of \<open>action_allowed_user\<close>, and
  \<open>AttributeError\<close> is a method looked up on a value that has none of that name.
\<close>

datatype error = ValueError | AssertionError | AttributeError

text \<open>
  \<^verbatim>\<open>s.split(sep)\<close> for a one-character separator: the string is cut at every occurrence
  of the separator, empty pieces are kept, and the empty string gives one empty piece.
  A character other than the separator goes in front of the first piece of the rest; the
  rest always has a first piece (\<open>split_py_not_Nil\<close> below), so the last branch is never
  taken.
\<close>

fun split_py :: "char \<Rightarrow> string \<Rightarrow> string list" where
  "split_py sep [] = [[]]"
| "split_py sep (c # cs) =
     (if c = sep then [] # split_py sep cs
      else (case split_py sep cs of w # ws \<Rightarrow> (c # w) # ws | [] \<Rightarrow> [[c]]))"

text \<open>The unpacking of a list into two names.\<close>

fun unpack2 :: "string list \<Rightarrow> error + string \<times> string" where
  "unpack2 [a, b] = Inr (a, b)"
| "unpack2 _ = Inl ValueError"

section \<open>The rule matcher\<close>

text \<open>
  The body of the \<^verbatim>\<open>for rule in rules.split(',')\<close> loop of \<open>match_rules\<close>, as a recursion
  over the rules still to be scanned.
\<close>

fun match_rules_loop :: "string list \<Rightarrow> string \<Rightarrow> string \<Rightarrow> error + bool" where
  "match_rules_loop [] app action = Inr False"
| "match_rules_loop (rule # rest) app action =
     (case unpack2 (split_py CHR '':'' rule) of
        Inl e \<Rightarrow> Inl e
      | Inr (rule_app, rule_action) \<Rightarrow>
          if rule_app = ''*'' \<or> rule_app = app then
            if rule_action = ''*'' \<or> rule_action = action \<or> action = ''%'' then Inr True
            else match_rules_loop rest app action
          else match_rules_loop rest app action)"

definition match_rules :: "string \<Rightarrow> string \<Rightarrow> string \<Rightarrow> error + bool" where
  "match_rules rules app action = match_rules_loop (split_py CHR '','' rules) app action"

section \<open>The capability resolver\<close>

text \<open>
  A group carries its rule string; a permission is the named pair \<open>AclPermission(app, action)\<close>;
  a user has the flag \<open>is_authenticated\<close>, its primary key and the list \<open>groups_list\<close>.
\<close>

record group =
  rules :: string

record acl_permission =
  app :: string
  action :: string

record user =
  is_authenticated :: bool
  user_id :: int
  groups_list :: "group list"

text \<open>
  The constants of the package \<open>olympia.amo\<close> that the module reads (\<open>amo.permissions.*\<close>,
  \<open>amo.ADDON_LPAPP\<close>, \<open>amo.RESERVED_ADDON_GUIDS\<close>, \<open>amo.STATUS_DISABLED\<close>, the author roles),
  and the two Django settings. Their values are not part of the module: they are parameters.
\<close>

record amo =
  PERMISSIONS_LIST :: "acl_permission list"
  ADDONS_EDIT :: acl_permission
  ADMIN_CURATION :: acl_permission
  COLLECTIONS_CONTRIBUTE :: acl_permission
  EXPERIMENTS_SUBMIT :: acl_permission
  LANGPACK_SUBMIT :: acl_permission
  SYSTEM_ADDON_SUBMIT :: acl_permission
  ADDON_LPAPP :: int
  RESERVED_ADDON_GUIDS :: "string list"
  STATUS_DISABLED :: int
  AUTHOR_ROLE_OWNER :: int
  AUTHOR_ROLE_DEV :: int

record settings =
  TASK_USER_ID :: int
  COLLECTION_FEATURED_THEMES_ID :: int

text \<open>
  \<^verbatim>\<open>any(match_rules(group.rules, ...) for group in user.groups_list)\<close>: the generator is
  consumed from the left, stops at the first true value, and an exception of
  \<open>match_rules\<close> escapes from \<open>any\<close>.
\<close>

fun any_group :: "group list \<Rightarrow> string \<Rightarrow> string \<Rightarrow> error + bool" where
  "any_group [] ap act = Inr False"
| "any_group (g # gs) ap act =
     (case match_rules (rules g) ap act of
        Inl e \<Rightarrow> Inl e
      | Inr r \<Rightarrow> if r then Inr True else any_group gs ap act)"

definition action_allowed_user :: "amo \<Rightarrow> user \<Rightarrow> acl_permission \<Rightarrow> error + bool" where
  "action_allowed_user amo user permission =
     (if \<not> is_authenticated user then Inr False
      else if permission \<notin> set (PERMISSIONS_LIST amo) then Inl AssertionError
      else any_group (groups_list user) (app permission) (action permission))"

section \<open>Submission predicates\<close>

text \<open>
  The parsed add-on data is a dictionary from field names to Python values; \<open>truthy\<close> is
  Python's truth value, \<open>py_eq\<close> its \<open>==\<close> (where \<open>True == 1\<close> and \<open>False == 0\<close>).
\<close>

datatype pyval = PyNone | PyBool bool | PyInt int | PyStr string

fun truthy :: "pyval \<Rightarrow> bool" where
  "truthy PyNone = False"
| "truthy (PyBool b) = b"
| "truthy (PyInt i) = (i \<noteq> 0)"
| "truthy (PyStr s) = (s \<noteq> [])"

fun py_eq :: "pyval \<Rightarrow> pyval \<Rightarrow> bool" where
  "py_eq (PyBool a) (PyInt i) = ((if a then 1 else 0) = i)"
| "py_eq (PyInt i) (PyBool a) = ((if a then 1 else 0) = i)"
| "py_eq x y = (x = y)"

text \<open>\<^verbatim>\<open>d.get(key, default)\<close>.\<close>

definition dict_get :: "(string \<rightharpoonup> pyval) \<Rightarrow> string \<Rightarrow> pyval \<Rightarrow> pyval" where
  "dict_get d key dflt = (case d key of None \<Rightarrow> dflt | Some v \<Rightarrow> v)"

text \<open>
  \<^verbatim>\<open>str.lower\<close> on the ASCII letters (characters here are bytes; other bytes are left as
  they are), and \<^verbatim>\<open>s.endswith(tuple)\<close>: some element of the tuple is a suffix of \<open>s\<close>.
\<close>

definition lower_char :: "char \<Rightarrow> char" where
  "lower_char c =
     (case map_of (zip ''ABCDEFGHIJKLMNOPQRSTUVWXYZ'' ''abcdefghijklmnopqrstuvwxyz'') c of
        Some l \<Rightarrow> l
      | None \<Rightarrow> c)"

definition lower :: "string \<Rightarrow> string" where
  "lower s = map lower_char s"

definition endswith :: "string \<Rightarrow> string list \<Rightarrow> bool" where
  "endswith s sufs =
     list_ex (\<lambda>suf. length suf \<le> length s \<and> drop (length s - length suf) s = suf) sufs"

definition experiments_submission_allowed ::
  "amo \<Rightarrow> user \<Rightarrow> (string \<rightharpoonup> pyval) \<Rightarrow> error + bool" where
  "experiments_submission_allowed amo user parsed_addon_data =
     (if \<not> truthy (dict_get parsed_addon_data ''is_experiment'' (PyBool False)) then Inr True
      else action_allowed_user amo user (EXPERIMENTS_SUBMIT amo))"

definition langpack_submission_allowed ::
  "amo \<Rightarrow> user \<Rightarrow> (string \<rightharpoonup> pyval) \<Rightarrow> error + bool" where
  "langpack_submission_allowed amo user parsed_addon_data =
     (if \<not> py_eq (dict_get parsed_addon_data ''type'' PyNone) (PyInt (ADDON_LPAPP amo))
      then Inr True
      else action_allowed_user amo user (LANGPACK_SUBMIT amo))"

text \<open>
  \<^verbatim>\<open>guid = parsed_addon_data.get('guid') or ''\<close> keeps a truthy value of any type; \<open>lower\<close>
  is then a method of strings only.
\<close>

definition reserved_guid_addon_submission_allowed ::
  "amo \<Rightarrow> user \<Rightarrow> (string \<rightharpoonup> pyval) \<Rightarrow> error + bool" where
  "reserved_guid_addon_submission_allowed amo user parsed_addon_data =
     (let v = dict_get parsed_addon_data ''guid'' PyNone;
          guid = (if truthy v then v else PyStr [])
      in case guid of
           PyStr g \<Rightarrow>
             if \<not> endswith (lower g) (RESERVED_ADDON_GUIDS amo) then Inr True
             else action_allowed_user amo user (SYSTEM_ADDON_SUBMIT amo)
         | _ \<Rightarrow> Inl AttributeError)"

definition mozilla_signed_extension_submission_allowed ::
  "amo \<Rightarrow> user \<Rightarrow> (string \<rightharpoonup> pyval) \<Rightarrow> error + bool" where
  "mozilla_signed_extension_submission_allowed amo user parsed_addon_data =
     (if \<not> truthy (dict_get parsed_addon_data ''is_mozilla_signed_extension'' PyNone)
      then Inr True
      else action_allowed_user amo user (SYSTEM_ADDON_SUBMIT amo))"

section \<open>Ownership predicates\<close>

record request =
  user :: user

definition action_allowed :: "amo \<Rightarrow> request \<Rightarrow> acl_permission \<Rightarrow> error + bool" where
  "action_allowed amo request permission = action_allowed_user amo (user request) permission"

text \<open>
  The object handed to \<open>check_ownership\<close>: what \<^verbatim>\<open>hasattr(obj, 'check_ownership')\<close> sees is
  whether the attribute is there, and, when it is, the method takes the request and the four
  keyword flags.
\<close>

type_synonym ownership_method =
  "request \<Rightarrow> bool \<Rightarrow> bool \<Rightarrow> bool \<Rightarrow> bool \<Rightarrow> error + bool"

record py_object =
  check_ownership_attr :: "ownership_method option"

definition check_ownership ::
  "request \<Rightarrow> py_object \<Rightarrow> bool \<Rightarrow> bool \<Rightarrow> bool \<Rightarrow> bool \<Rightarrow> error + bool" where
  "check_ownership request obj require_owner require_author ignore_disabled admin =
     (case check_ownership_attr obj of
        Some m \<Rightarrow> m request require_owner require_author ignore_disabled admin
      | None \<Rightarrow> Inr False)"

text \<open>A collection: its primary key and the (nullable) foreign key of its author.\<close>

record collection =
  pk :: int
  author_id :: "int option"

definition check_collection_ownership ::
  "amo \<Rightarrow> settings \<Rightarrow> request \<Rightarrow> collection \<Rightarrow> bool \<Rightarrow> error + bool" where
  "check_collection_ownership amo settings request collection require_owner =
     (if \<not> is_authenticated (user request) then Inr False
      else if Some (user_id (user request)) = author_id collection then Inr True
      else
        case (if author_id collection = Some (TASK_USER_ID settings)
              then action_allowed_user amo (user request) (ADMIN_CURATION amo)
              else Inr False) of
          Inl e \<Rightarrow> Inl e
        | Inr curator \<Rightarrow>
            if curator then Inr True
            else if \<not> require_owner then
              (if pk collection = COLLECTION_FEATURED_THEMES_ID settings
               then action_allowed_user amo (user request) (COLLECTIONS_CONTRIBUTE amo)
               else Inr False)
            else Inr False)"

text \<open>
  An add-on: the rows of \<open>addonuser_set\<close> are pairs of a user's key and a role, and
  \<^verbatim>\<open>filter(user=..., role__in=roles).exists()\<close> asks for one row of that user with one of
  the roles.
\<close>

record addon_user =
  au_user_id :: int
  role :: int

record addon =
  is_deleted :: bool
  status :: int
  addonuser_set :: "addon_user list"

definition check_addon_ownership ::
  "amo \<Rightarrow> request \<Rightarrow> addon \<Rightarrow> bool \<Rightarrow> bool \<Rightarrow> bool \<Rightarrow> error + bool" where
  "check_addon_ownership amo request addon dev admin ignore_disabled =
     (if \<not> is_authenticated (user request) then Inr False
      else if is_deleted addon then Inr False
      else
        case (if admin then action_allowed amo request (ADDONS_EDIT amo) else Inr False) of
          Inl e \<Rightarrow> Inl e
        | Inr editor \<Rightarrow>
            if editor then Inr True
            else if status addon = STATUS_DISABLED amo \<and> \<not> ignore_disabled then Inr False
            else
              let roles = [AUTHOR_ROLE_OWNER amo] @ (if dev then [AUTHOR_ROLE_DEV amo] else [])
              in Inr (list_ex (\<lambda>au. au_user_id au = user_id (user request) \<and> role au \<in> set roles)
                        (addonuser_set addon)))"

section \<open>Reference notions for the statements\<close>

text \<open>
  \<^verbatim>\<open>','.join(rs)\<close>: the rule set whose rules are \<open>rs\<close>, in that order.
\<close>

fun join_py :: "char \<Rightarrow> string list \<Rightarrow> string" where
  "join_py sep [] = []"
| "join_py sep [r] = r"
| "join_py sep (r # rs) = r @ sep # join_py sep rs"

text \<open>
  A rule \<open>(d, a)\<close> authorises the requested \<open>(ap, act)\<close>, in the specification's words.
\<close>

definition grants :: "string \<Rightarrow> string \<Rightarrow> string \<Rightarrow> string \<Rightarrow> bool" where
  "grants d a ap act \<longleftrightarrow> (d = ''*'' \<or> d = ap) \<and> (a = ''*'' \<or> a = act \<or> act = ''%'')"

text \<open>
  A rule string matches the request when it is \<open>d:a\<close> with a single colon and \<open>(d, a)\<close>
  authorises the request.
\<close>

definition rule_matches :: "string \<Rightarrow> string \<Rightarrow> string \<Rightarrow> bool" where
  "rule_matches r ap act \<longleftrightarrow>
     count_list r CHR '':'' = 1 \<and>
     grants (takeWhile (\<lambda>c. c \<noteq> CHR '':'') r) (tl (dropWhile (\<lambda>c. c \<noteq> CHR '':'') r)) ap act"

text \<open>Sample constants and settings, for evaluating the functions on concrete inputs.\<close>

definition sample_amo :: amo where
  "sample_amo =
     \<lparr>PERMISSIONS_LIST =
        [\<lparr>app = ''Addons'', action = ''Edit''\<rparr>, \<lparr>app = ''Admin'', action = ''Curation''\<rparr>,
         \<lparr>app = ''Collections'', action = ''Contribute''\<rparr>,
         \<lparr>app = ''Experiments'', action = ''submit''\<rparr>,
         \<lparr>app = ''LanguagePack'', action = ''Submit''\<rparr>,
         \<lparr>app = ''SystemAddon'', action = ''Submit''\<rparr>],
      ADDONS_EDIT = \<lparr>app = ''Addons'', action = ''Edit''\<rparr>,
      ADMIN_CURATION = \<lparr>app = ''Admin'', action = ''Curation''\<rparr>,
      COLLECTIONS_CONTRIBUTE = \<lparr>app = ''Collections'', action = ''Contribute''\<rparr>,
      EXPERIMENTS_SUBMIT = \<lparr>app = ''Experiments'', action = ''submit''\<rparr>,
      LANGPACK_SUBMIT = \<lparr>app = ''LanguagePack'', action = ''Submit''\<rparr>,
      SYSTEM_ADDON_SUBMIT = \<lparr>app = ''SystemAddon'', action = ''Submit''\<rparr>,
      ADDON_LPAPP = 5,
      RESERVED_ADDON_GUIDS = [''@mozilla.com'', ''@mozilla.org''],
      STATUS_DISABLED = 5,
      AUTHOR_ROLE_OWNER = 5,
      AUTHOR_ROLE_DEV = 4\<rparr>"

definition sample_settings :: settings where
  "sample_settings = \<lparr>TASK_USER_ID = 4757633, COLLECTION_FEATURED_THEMES_ID = 2143965\<rparr>"

definition sample_user :: "bool \<Rightarrow> string list \<Rightarrow> user" where
  "sample_user auth rs =
     \<lparr>is_authenticated = auth, user_id = 7, groups_list = map (\<lambda>r. \<lparr>rules = r\<rparr>) rs\<rparr>"

definition sample_addon :: "bool \<Rightarrow> int \<Rightarrow> addon" where
  "sample_addon deleted st =
     \<lparr>is_deleted = deleted, status = st,
      addonuser_set = [\<lparr>au_user_id = 7, role = 5\<rparr>]\<rparr>"

section \<open>Splitting and joining\<close>

lemma split_py_not_Nil: "split_py sep s \<noteq> []"
  by (induction s) (auto split: list.splits)

lemma length_split_py: "length (split_py sep s) = Suc (count_list s sep)"
  by (induction s) (auto split: list.splits)

lemma split_py_no_sep: "sep \<notin> set s \<Longrightarrow> split_py sep s = [s]"
  by (induction s) auto

lemma split_py_append: "sep \<notin> set d \<Longrightarrow> split_py sep (d @ sep # a) = d # split_py sep a"
  by (induction d) auto

lemma split_py_join:
  "rs \<noteq> [] \<Longrightarrow> \<forall>r\<in>set rs. sep \<notin> set r \<Longrightarrow> split_py sep (join_py sep rs) = rs"
proof (induction sep rs rule: join_py.induct)
  case (1 sep)
  then show ?case by simp
next
  case (2 sep r)
  then show ?case by (simp add: split_py_no_sep)
next
  case (3 sep r v va)
  then show ?case by (simp add: split_py_append)
qed

lemma join_py_split: "join_py sep (split_py sep s) = s"
proof (induction s)
  case Nil
  show ?case by simp
next
  case (Cons c cs)
  obtain w ws where w: "split_py sep cs = w # ws"
    using split_py_not_Nil [of sep cs] by (cases "split_py sep cs") auto
  show ?case
  proof (cases "c = sep")
    case True
    then show ?thesis using Cons.IH w by simp
  next
    case False
    then show ?thesis using Cons.IH w by (cases ws) auto
  qed
qed

lemma count_one_decomp:
  assumes "count_list r sep = 1"
  shows "r = takeWhile (\<lambda>c. c \<noteq> sep) r @ sep # tl (dropWhile (\<lambda>c. c \<noteq> sep) r)
         \<and> sep \<notin> set (takeWhile (\<lambda>c. c \<noteq> sep) r)
         \<and> sep \<notin> set (tl (dropWhile (\<lambda>c. c \<noteq> sep) r))"
proof -
  let ?d = "takeWhile (\<lambda>c. c \<noteq> sep) r"
  let ?rest = "dropWhile (\<lambda>c. c \<noteq> sep) r"
  have mem: "sep \<in> set r"
    using assms count_list_0_iff [of r sep] by auto
  then have ne: "?rest \<noteq> []" by auto
  then have hd: "hd ?rest = sep"
    using hd_dropWhile [of "\<lambda>c. c \<noteq> sep" r] by simp
  have split: "r = ?d @ sep # tl ?rest"
    using ne hd by (metis list.collapse takeWhile_dropWhile_id)
  have d: "sep \<notin> set ?d"
    by (auto dest: set_takeWhileD)
  then have "count_list ?d sep = 0" by (simp add: count_list_0_iff)
  moreover have "count_list r sep = count_list ?d sep + Suc (count_list (tl ?rest) sep)"
    by (subst split) simp
  ultimately have "count_list (tl ?rest) sep = 0" using assms by simp
  then have "sep \<notin> set (tl ?rest)" by (simp add: count_list_0_iff)
  with split d show ?thesis by blast
qed

lemma split_py_one:
  assumes "count_list r sep = 1"
  shows "split_py sep r = [takeWhile (\<lambda>c. c \<noteq> sep) r, tl (dropWhile (\<lambda>c. c \<noteq> sep) r)]"
proof -
  note d = count_one_decomp [OF assms]
  have "split_py sep r
        = split_py sep (takeWhile (\<lambda>c. c \<noteq> sep) r @ sep # tl (dropWhile (\<lambda>c. c \<noteq> sep) r))"
    using d by simp
  also have "\<dots> = takeWhile (\<lambda>c. c \<noteq> sep) r # split_py sep (tl (dropWhile (\<lambda>c. c \<noteq> sep) r))"
    using d by (intro split_py_append) simp
  finally show ?thesis using d by (simp add: split_py_no_sep)
qed

lemma unpack2_error: "length xs \<noteq> 2 \<Longrightarrow> unpack2 xs = Inl ValueError"
  by (cases xs rule: unpack2.cases) auto

lemma match_rules_loop_Cons:
  "match_rules_loop (r # rest) ap act =
     (if count_list r CHR '':'' \<noteq> 1 then Inl ValueError
      else if rule_matches r ap act then Inr True
      else match_rules_loop rest ap act)"
proof (cases "count_list r CHR '':'' = 1")
  case True
  then show ?thesis
    by (simp add: split_py_one rule_matches_def grants_def)
next
  case False
  then have "length (split_py CHR '':'' r) \<noteq> 2"
    by (simp add: length_split_py)
  then show ?thesis using False by (simp add: unpack2_error)
qed

lemma match_rules_loop_error:
  "\<forall>p\<in>set pre. \<not> rule_matches p ap act \<Longrightarrow> count_list r CHR '':'' \<noteq> 1 \<Longrightarrow>
   match_rules_loop (pre @ r # post) ap act = Inl ValueError"
proof (induction pre)
  case Nil
  then show ?case by (simp only: append_Nil match_rules_loop_Cons) simp
next
  case (Cons p pre)
  then show ?case by (simp only: append_Cons match_rules_loop_Cons) simp
qed

lemma match_rules_loop_wellformed:
  "\<forall>r\<in>set rs. count_list r CHR '':'' = 1 \<Longrightarrow>
   match_rules_loop rs ap act = Inr (\<exists>r\<in>set rs. rule_matches r ap act)"
proof (induction rs)
  case Nil
  show ?case by simp
next
  case (Cons r rs)
  then show ?case by (simp only: match_rules_loop_Cons) simp
qed

lemma takeWhile_upto_sep:
  "sep \<notin> set d \<Longrightarrow> takeWhile (\<lambda>c. c \<noteq> sep) (d @ sep # a) = d"
  by (induction d) auto

lemma dropWhile_upto_sep:
  "sep \<notin> set d \<Longrightarrow> dropWhile (\<lambda>c. c \<noteq> sep) (d @ sep # a) = sep # a"
  by (induction d) auto

lemma rule_matches_iff:
  assumes "count_list r CHR '':'' = 1"
  shows "rule_matches r ap act \<longleftrightarrow> (\<exists>d a. r = d @ CHR '':'' # a \<and> grants d a ap act)"
proof
  assume "rule_matches r ap act"
  then have "grants (takeWhile (\<lambda>c. c \<noteq> CHR '':'') r) (tl (dropWhile (\<lambda>c. c \<noteq> CHR '':'') r)) ap act"
    by (simp add: rule_matches_def)
  moreover have "r = takeWhile (\<lambda>c. c \<noteq> CHR '':'') r @ CHR '':'' # tl (dropWhile (\<lambda>c. c \<noteq> CHR '':'') r)"
    using count_one_decomp [OF assms] by blast
  ultimately show "\<exists>d a. r = d @ CHR '':'' # a \<and> grants d a ap act" by blast
next
  assume "\<exists>d a. r = d @ CHR '':'' # a \<and> grants d a ap act"
  then obtain d a where r: "r = d @ CHR '':'' # a" and g: "grants d a ap act" by blast
  have "count_list d CHR '':'' = 0"
    using assms by (simp add: r)
  then have d: "CHR '':'' \<notin> set d" by (simp add: count_list_0_iff)
  then have "takeWhile (\<lambda>c. c \<noteq> CHR '':'') r = d"
    by (simp add: r takeWhile_upto_sep)
  moreover have "dropWhile (\<lambda>c. c \<noteq> CHR '':'') r = CHR '':'' # a"
    using d by (simp add: r dropWhile_upto_sep)
  ultimately show "rule_matches r ap act"
    using assms g by (simp add: rule_matches_def)
qed

section \<open>What the rule matcher decides\<close>

text \<open>
  C1: for every requested \<open>(ap, act)\<close> and every non-empty list \<open>rs\<close> of rules, none with a
  comma and each with exactly one colon, \<open>match_rules\<close> on the rules joined by commas
  returns, and returns true exactly when some rule \<open>d:a\<close> of the list has
  \<open>d = '*'\<close> or \<open>d = ap\<close>, and \<open>a = '*'\<close> or \<open>a = act\<close> or \<open>act = '%'\<close>.
\<close>

theorem match_rules_iff_some_rule_grants:
  assumes "rs \<noteq> []"
    and "\<forall>r\<in>set rs. CHR '','' \<notin> set r \<and> count_list r CHR '':'' = 1"
  shows "match_rules (join_py CHR '','' rs) ap act =
           Inr (\<exists>d a. d @ CHR '':'' # a \<in> set rs
                  \<and> (d = ''*'' \<or> d = ap) \<and> (a = ''*'' \<or> a = act \<or> act = ''%''))"
proof -
  have split: "split_py CHR '','' (join_py CHR '','' rs) = rs"
    using assms by (intro split_py_join) auto
  have one: "\<forall>r\<in>set rs. count_list r CHR '':'' = 1"
    using assms(2) by blast
  have "(\<exists>r\<in>set rs. rule_matches r ap act)
        \<longleftrightarrow> (\<exists>d a. d @ CHR '':'' # a \<in> set rs \<and> grants d a ap act)"
    using one by (metis rule_matches_iff)
  then show ?thesis
    using match_rules_loop_wellformed [OF one, of ap act]
    by (simp add: match_rules_def split grants_def)
qed

theorem match_rules_iff_some_rule_grants_witness:
  "join_py CHR '','' [''Addons:Edit'', ''Reviews:*''] = ''Addons:Edit,Reviews:*''
   \<and> match_rules ''Addons:Edit,Reviews:*'' ''Reviews'' ''Edit'' = Inr True
   \<and> match_rules (join_py CHR '','' [''Addons:Edit'', ''Reviews:*'']) ''Stats'' ''View'' = Inr False"
proof -
  have ne: "[''Addons:Edit'', ''Reviews:*''] \<noteq> []" by simp
  have wf: "\<forall>r\<in>set [''Addons:Edit'', ''Reviews:*''].
              CHR '','' \<notin> set r \<and> count_list r CHR '':'' = 1"
    by simp
  have j: "join_py CHR '','' [''Addons:Edit'', ''Reviews:*''] = ''Addons:Edit,Reviews:*''"
    by simp
  have "''Reviews'' @ CHR '':'' # ''*'' \<in> set [''Addons:Edit'', ''Reviews:*'']
        \<and> (''Reviews'' = ''*'' \<or> ''Reviews'' = ''Reviews'')
        \<and> (''*'' = ''*'' \<or> ''*'' = ''Edit'' \<or> ''Edit'' = ''%'')"
    by simp
  then have "\<exists>d a. d @ CHR '':'' # a \<in> set [''Addons:Edit'', ''Reviews:*'']
        \<and> (d = ''*'' \<or> d = ''Reviews'') \<and> (a = ''*'' \<or> a = ''Edit'' \<or> ''Edit'' = ''%'')"
    by blast
  then have t: "match_rules ''Addons:Edit,Reviews:*'' ''Reviews'' ''Edit'' = Inr True"
    using match_rules_iff_some_rule_grants [OF ne wf, of "''Reviews''" "''Edit''"] j by simp
  have f: "match_rules (join_py CHR '','' [''Addons:Edit'', ''Reviews:*'']) ''Stats'' ''View'' = Inr False"
    by (simp add: match_rules_def)
  show ?thesis using j t f by simp
qed

section \<open>The rule matcher on the empty rule set\<close>

text \<open>
  C3 (as the code has it): for every permission, \<open>match_rules\<close> on the empty string does not
  return: the empty string splits into one empty rule, which has no colon, and the
  unpacking raises \<open>ValueError\<close>. In particular it never grants.
\<close>

theorem match_rules_empty_raises: "match_rules [] ap act = Inl ValueError"
  by (simp add: match_rules_def)

text \<open>C3 (as the specification states it) fails at the permission \<open>(Addons, Edit)\<close>.\<close>

theorem match_rules_empty_counterexample:
  "match_rules [] ''Addons'' ''Edit'' = Inl ValueError
   \<and> match_rules [] ''Addons'' ''Edit'' \<noteq> Inr False"
  by (simp add: match_rules_def)

section \<open>Malformed rules\<close>

text \<open>
  C7: for every rule set that contains a rule \<open>r\<close> without a colon, if no rule before \<open>r\<close>
  matches the requested permission, \<open>match_rules\<close> raises \<open>ValueError\<close>: the rule is
  neither skipped nor answered with a boolean, whatever follows it.
\<close>

theorem match_rules_missing_colon_raises:
  assumes "\<forall>x\<in>set (pre @ r # post). CHR '','' \<notin> set x"
    and "CHR '':'' \<notin> set r"
    and "\<forall>p\<in>set pre. \<not> rule_matches p ap act"
  shows "match_rules (join_py CHR '','' (pre @ r # post)) ap act = Inl ValueError"
proof -
  have "split_py CHR '','' (join_py CHR '','' (pre @ r # post)) = pre @ r # post"
    using assms(1) by (intro split_py_join) auto
  moreover have "count_list r CHR '':'' \<noteq> 1"
    using assms(2) by (simp add: count_list_0_iff)
  ultimately show ?thesis
    using match_rules_loop_error [OF assms(3), of r post] by (simp add: match_rules_def)
qed

theorem match_rules_missing_colon_raises_witness:
  "join_py CHR '','' ([''Addons:Edit''] @ ''Reviews'' # [''*:*'']) = ''Addons:Edit,Reviews,*:*''
   \<and> \<not> rule_matches ''Addons:Edit'' ''Reviews'' ''Edit''
   \<and> match_rules ''Addons:Edit,Reviews,*:*'' ''Reviews'' ''Edit'' = Inl ValueError"
proof -
  have c: "\<forall>x\<in>set ([''Addons:Edit''] @ ''Reviews'' # [''*:*'']). CHR '','' \<notin> set x" by simp
  have r: "CHR '':'' \<notin> set ''Reviews''" by simp
  have n: "\<not> rule_matches ''Addons:Edit'' ''Reviews'' ''Edit''"
    by (simp add: rule_matches_def grants_def)
  then have p: "\<forall>p\<in>set [''Addons:Edit'']. \<not> rule_matches p ''Reviews'' ''Edit''" by simp
  have j: "join_py CHR '','' ([''Addons:Edit''] @ ''Reviews'' # [''*:*'']) = ''Addons:Edit,Reviews,*:*''"
    by simp
  show ?thesis using match_rules_missing_colon_raises [OF c r p] j n by simp
qed

text \<open>
  C8 (as the code has it): a rule is split at every colon, not at the first one only. For
  every rule set that contains a rule with two colons or more, if no rule before it
  matches the requested permission, \<open>match_rules\<close> raises \<open>ValueError\<close>: no
  \<open>(domain, action)\<close> pair is made of such a rule.
\<close>

theorem match_rules_extra_colon_raises:
  assumes "\<forall>x\<in>set (pre @ r # post). CHR '','' \<notin> set x"
    and "2 \<le> count_list r CHR '':''"
    and "\<forall>p\<in>set pre. \<not> rule_matches p ap act"
  shows "match_rules (join_py CHR '','' (pre @ r # post)) ap act = Inl ValueError"
proof -
  have "split_py CHR '','' (join_py CHR '','' (pre @ r # post)) = pre @ r # post"
    using assms(1) by (intro split_py_join) auto
  moreover have "count_list r CHR '':'' \<noteq> 1"
    using assms(2) by simp
  ultimately show ?thesis
    using match_rules_loop_error [OF assms(3), of r post] by (simp add: match_rules_def)
qed

theorem match_rules_extra_colon_raises_witness:
  "join_py CHR '','' ([''x:y''] @ ''a:b:c'' # [''*:*'']) = ''x:y,a:b:c,*:*''
   \<and> count_list ''a:b:c'' CHR '':'' = 2
   \<and> match_rules ''x:y,a:b:c,*:*'' ''a'' ''b:c'' = Inl ValueError"
proof -
  have c: "\<forall>x\<in>set ([''x:y''] @ ''a:b:c'' # [''*:*'']). CHR '','' \<notin> set x" by simp
  have r: "2 \<le> count_list ''a:b:c'' CHR '':''" by simp
  have p: "\<forall>p\<in>set [''x:y'']. \<not> rule_matches p ''a'' ''b:c''"
    by (simp add: rule_matches_def grants_def)
  have j: "join_py CHR '','' ([''x:y''] @ ''a:b:c'' # [''*:*'']) = ''x:y,a:b:c,*:*''"
    by simp
  show ?thesis using match_rules_extra_colon_raises [OF c r p] j by simp
qed

text \<open>
  C8 (as the specification states it) fails on its own example: the rule \<open>a:b:c\<close> asked for
  \<open>(a, b:c)\<close> is an error, not a grant.
\<close>

theorem match_rules_first_colon_counterexample:
  "match_rules ''a:b:c'' ''a'' ''b:c'' = Inl ValueError
   \<and> match_rules ''a:b:c'' ''a'' ''b:c'' \<noteq> Inr True"
  by (simp add: match_rules_def)

section \<open>What the capability resolver decides\<close>

lemma any_group_True_iff:
  "any_group gs ap act = Inr True \<longleftrightarrow>
     (\<exists>pre g post. gs = pre @ g # post \<and> match_rules (rules g) ap act = Inr True
        \<and> (\<forall>h\<in>set pre. match_rules (rules h) ap act = Inr False))"
proof (induction gs)
  case Nil
  show ?case by simp
next
  case (Cons x gs)
  show ?case
  proof (cases "match_rules (rules x) ap act")
    case (Inl e)
    have "\<not> (\<exists>pre g post. x # gs = pre @ g # post \<and> match_rules (rules g) ap act = Inr True
        \<and> (\<forall>h\<in>set pre. match_rules (rules h) ap act = Inr False))"
    proof
      assume "\<exists>pre g post. x # gs = pre @ g # post \<and> match_rules (rules g) ap act = Inr True
        \<and> (\<forall>h\<in>set pre. match_rules (rules h) ap act = Inr False)"
      then obtain pre g post where eq: "x # gs = pre @ g # post"
        and g: "match_rules (rules g) ap act = Inr True"
        and pre: "\<forall>h\<in>set pre. match_rules (rules h) ap act = Inr False" by blast
      show False
      proof (cases pre)
        case Nil
        then show False using eq g Inl by simp
      next
        case (Cons h pre')
        then show False using eq pre Inl by simp
      qed
    qed
    then show ?thesis using Inl by simp
  next
    case (Inr b)
    show ?thesis
    proof (cases b)
      case True
      have "x # gs = [] @ x # gs \<and> match_rules (rules x) ap act = Inr True
            \<and> (\<forall>h\<in>set []. match_rules (rules h) ap act = Inr False)"
        using Inr True by simp
      then have "\<exists>pre g post. x # gs = pre @ g # post \<and> match_rules (rules g) ap act = Inr True
        \<and> (\<forall>h\<in>set pre. match_rules (rules h) ap act = Inr False)"
        by blast
      then show ?thesis using Inr True by simp
    next
      case False
      have "(\<exists>pre g post. x # gs = pre @ g # post \<and> match_rules (rules g) ap act = Inr True
               \<and> (\<forall>h\<in>set pre. match_rules (rules h) ap act = Inr False))
            \<longleftrightarrow> (\<exists>pre g post. gs = pre @ g # post \<and> match_rules (rules g) ap act = Inr True
               \<and> (\<forall>h\<in>set pre. match_rules (rules h) ap act = Inr False))"
      proof
        assume "\<exists>pre g post. x # gs = pre @ g # post \<and> match_rules (rules g) ap act = Inr True
               \<and> (\<forall>h\<in>set pre. match_rules (rules h) ap act = Inr False)"
        then obtain pre g post where eq: "x # gs = pre @ g # post"
          and g: "match_rules (rules g) ap act = Inr True"
          and pre: "\<forall>h\<in>set pre. match_rules (rules h) ap act = Inr False" by blast
        show "\<exists>pre g post. gs = pre @ g # post \<and> match_rules (rules g) ap act = Inr True
               \<and> (\<forall>h\<in>set pre. match_rules (rules h) ap act = Inr False)"
        proof (cases pre)
          case Nil
          then show ?thesis using eq g Inr False by simp
        next
          case (Cons h pre')
          then have "gs = pre' @ g # post" and "\<forall>h\<in>set pre'. match_rules (rules h) ap act = Inr False"
            using eq pre by simp_all
          then show ?thesis using g by blast
        qed
      next
        assume "\<exists>pre g post. gs = pre @ g # post \<and> match_rules (rules g) ap act = Inr True
               \<and> (\<forall>h\<in>set pre. match_rules (rules h) ap act = Inr False)"
        then obtain pre g post where eq: "gs = pre @ g # post"
          and g: "match_rules (rules g) ap act = Inr True"
          and pre: "\<forall>h\<in>set pre. match_rules (rules h) ap act = Inr False" by blast
        have "x # gs = (x # pre) @ g # post" using eq by simp
        moreover have "\<forall>h\<in>set (x # pre). match_rules (rules h) ap act = Inr False"
          using pre Inr False by simp
        ultimately show "\<exists>pre g post. x # gs = pre @ g # post
               \<and> match_rules (rules g) ap act = Inr True
               \<and> (\<forall>h\<in>set pre. match_rules (rules h) ap act = Inr False)"
          using g by blast
      qed
      then show ?thesis using Inr False Cons.IH by simp
    qed
  qed
qed

lemma any_group_no_error:
  "\<forall>g\<in>set gs. \<exists>b. match_rules (rules g) ap act = Inr b \<Longrightarrow>
   any_group gs ap act = Inr (\<exists>g\<in>set gs. match_rules (rules g) ap act = Inr True)"
  by (induction gs) auto

text \<open>
  C2 (as the code has it): \<open>action_allowed_user\<close> returns false for every unauthenticated
  user, whatever the groups hold. For an authenticated user and a permission of
  \<open>PERMISSIONS_LIST\<close>, it returns true exactly when some group of the list is accepted by
  \<open>match_rules\<close> and \<open>match_rules\<close> returns false on every group before it; and when
  \<open>match_rules\<close> raises on no group of the list, it returns whether some group is accepted.
\<close>

theorem action_allowed_user_any_group:
  "(\<not> is_authenticated u \<longrightarrow> action_allowed_user amo u p = Inr False)
   \<and> (is_authenticated u \<and> p \<in> set (PERMISSIONS_LIST amo) \<longrightarrow>
        (action_allowed_user amo u p = Inr True \<longleftrightarrow>
           (\<exists>pre g post. groups_list u = pre @ g # post
              \<and> match_rules (rules g) (app p) (action p) = Inr True
              \<and> (\<forall>h\<in>set pre. match_rules (rules h) (app p) (action p) = Inr False))))
   \<and> (is_authenticated u \<and> p \<in> set (PERMISSIONS_LIST amo)
        \<and> (\<forall>g\<in>set (groups_list u). \<exists>b. match_rules (rules g) (app p) (action p) = Inr b) \<longrightarrow>
        action_allowed_user amo u p
          = Inr (\<exists>g\<in>set (groups_list u). match_rules (rules g) (app p) (action p) = Inr True))"
  by (simp add: action_allowed_user_def any_group_True_iff any_group_no_error)

lemma match_rules_other_domain: "match_rules ''Stats:View'' ''Addons'' ''Edit'' = Inr False"
  by (simp add: match_rules_def)

lemma match_rules_action_star: "match_rules ''Addons:*'' ''Addons'' ''Edit'' = Inr True"
  by (simp add: match_rules_def)

lemma match_rules_no_colon: "match_rules ''x'' ''Addons'' ''Edit'' = Inl ValueError"
  by (simp add: match_rules_def)

lemma match_rules_star_star: "match_rules ''*:*'' ''Addons'' ''Edit'' = Inr True"
  by (simp add: match_rules_def)

theorem action_allowed_user_any_group_witness:
  "action_allowed_user sample_amo (sample_user False [''x'', ''*:*'']) (ADDONS_EDIT sample_amo)
     = Inr False
   \<and> action_allowed_user sample_amo (sample_user True [''Stats:View'', ''Addons:*'', ''x''])
       (ADDONS_EDIT sample_amo) = Inr True
   \<and> action_allowed_user sample_amo (sample_user True [''Stats:View''])
       (ADDONS_EDIT sample_amo) = Inr False"
proof -
  let ?p = "ADDONS_EDIT sample_amo"
  have p: "?p \<in> set (PERMISSIONS_LIST sample_amo)" "app ?p = ''Addons''" "action ?p = ''Edit''"
    by (simp_all add: sample_amo_def)
  have a: "action_allowed_user sample_amo (sample_user False [''x'', ''*:*'']) ?p = Inr False"
    using action_allowed_user_any_group [of "sample_user False [''x'', ''*:*'']" sample_amo ?p]
    by (simp add: sample_user_def)
  let ?u = "sample_user True [''Stats:View'', ''Addons:*'', ''x'']"
  have "groups_list ?u = [\<lparr>rules = ''Stats:View''\<rparr>] @ \<lparr>rules = ''Addons:*''\<rparr> # [\<lparr>rules = ''x''\<rparr>]
        \<and> match_rules (rules \<lparr>rules = ''Addons:*''\<rparr>) (app ?p) (action ?p) = Inr True
        \<and> (\<forall>h\<in>set [\<lparr>rules = ''Stats:View''\<rparr>]. match_rules (rules h) (app ?p) (action ?p) = Inr False)"
    by (simp add: sample_user_def p match_rules_other_domain match_rules_action_star)
  then have "\<exists>pre g post. groups_list ?u = pre @ g # post
        \<and> match_rules (rules g) (app ?p) (action ?p) = Inr True
        \<and> (\<forall>h\<in>set pre. match_rules (rules h) (app ?p) (action ?p) = Inr False)"
    by blast
  moreover have "is_authenticated ?u" by (simp add: sample_user_def)
  ultimately have b: "action_allowed_user sample_amo ?u ?p = Inr True"
    using action_allowed_user_any_group [of ?u sample_amo ?p] p(1) by blast
  let ?v = "sample_user True [''Stats:View'']"
  have "is_authenticated ?v" by (simp add: sample_user_def)
  moreover have "\<forall>g\<in>set (groups_list ?v). \<exists>b. match_rules (rules g) (app ?p) (action ?p) = Inr b"
    by (auto simp add: sample_user_def p match_rules_other_domain)
  ultimately have "action_allowed_user sample_amo ?v ?p
      = Inr (\<exists>g\<in>set (groups_list ?v). match_rules (rules g) (app ?p) (action ?p) = Inr True)"
    using action_allowed_user_any_group [of ?v sample_amo ?p] p(1) by blast
  then have c: "action_allowed_user sample_amo ?v ?p = Inr False"
    by (simp add: sample_user_def p match_rules_other_domain)
  show ?thesis using a b c by simp
qed

text \<open>
  C2 (as the specification states it) fails for an authenticated user whose first group has
  the rule string \<open>x\<close> and whose second group has \<open>*:*\<close>: the second group is accepted by
  \<open>match_rules\<close>, and the call raises \<open>ValueError\<close> on the first instead of returning true.
\<close>

theorem action_allowed_user_any_group_counterexample:
  "is_authenticated (sample_user True [''x'', ''*:*''])
   \<and> ADDONS_EDIT sample_amo \<in> set (PERMISSIONS_LIST sample_amo)
   \<and> \<lparr>rules = ''*:*''\<rparr> \<in> set (groups_list (sample_user True [''x'', ''*:*'']))
   \<and> match_rules (rules \<lparr>rules = ''*:*''\<rparr>) (app (ADDONS_EDIT sample_amo))
        (action (ADDONS_EDIT sample_amo)) = Inr True
   \<and> action_allowed_user sample_amo (sample_user True [''x'', ''*:*'']) (ADDONS_EDIT sample_amo)
        = Inl ValueError"
  by (simp add: sample_user_def sample_amo_def action_allowed_user_def match_rules_no_colon match_rules_star_star)

section \<open>A permission outside the enumeration\<close>

text \<open>
  C5 (as the code has it): for a permission that is not in \<open>PERMISSIONS_LIST\<close>,
  \<open>action_allowed_user\<close> fails with the assertion for every authenticated user, whatever the
  groups hold, and never answers such a user with a denial; for an unauthenticated user it
  returns false, since the authentication test comes before the assertion.
\<close>

theorem action_allowed_user_outside_enumeration:
  "p \<notin> set (PERMISSIONS_LIST amo) \<Longrightarrow>
   action_allowed_user amo u p = (if is_authenticated u then Inl AssertionError else Inr False)"
  by (simp add: action_allowed_user_def)

theorem action_allowed_user_outside_enumeration_witness:
  "\<lparr>app = ''Addons'', action = ''Delete''\<rparr> \<notin> set (PERMISSIONS_LIST sample_amo)
   \<and> action_allowed_user sample_amo (sample_user True [''*:*''])
        \<lparr>app = ''Addons'', action = ''Delete''\<rparr> = Inl AssertionError"
proof -
  have h: "\<lparr>app = ''Addons'', action = ''Delete''\<rparr> \<notin> set (PERMISSIONS_LIST sample_amo)"
    by (simp add: sample_amo_def)
  show ?thesis
    using h action_allowed_user_outside_enumeration [OF h, of "sample_user True [''*:*'']"]
    by (simp add: sample_user_def)
qed

text \<open>
  C5 (as the specification states it) fails for an unauthenticated user: the permission
  \<open>(Addons, Delete)\<close> is outside the enumeration and the answer is the denial \<open>False\<close>.
\<close>

theorem action_allowed_user_outside_enumeration_counterexample:
  "\<not> is_authenticated (sample_user False [''*:*''])
   \<and> \<lparr>app = ''Addons'', action = ''Delete''\<rparr> \<notin> set (PERMISSIONS_LIST sample_amo)
   \<and> action_allowed_user sample_amo (sample_user False [''*:*''])
        \<lparr>app = ''Addons'', action = ''Delete''\<rparr> = Inr False"
  by (simp add: sample_user_def sample_amo_def action_allowed_user_def)

section \<open>Ownership of an add-on\<close>

text \<open>
  C4: for every authenticated user, \<open>check_addon_ownership\<close> returns false on a deleted
  add-on, whatever the flags and the permissions are (so also with \<open>admin=True\<close> and the
  global \<open>Addons:Edit\<close>); on an add-on that is not deleted, a user holding the global
  \<open>Addons:Edit\<close> gets true with \<open>admin=True\<close>, whatever the status is (so also when
  disabled); and on a disabled add-on with \<open>ignore_disabled=False\<close> the answer is false for
  a user without the global edit permission (the permission is looked at only when
  \<open>admin\<close> is set), owner or not.
\<close>

theorem check_addon_ownership_deleted_admin_disabled:
  assumes "is_authenticated (user request)"
  shows "(is_deleted addon \<longrightarrow>
            check_addon_ownership amo request addon dev admin ignore_disabled = Inr False)
       \<and> (\<not> is_deleted addon \<and> action_allowed amo request (ADDONS_EDIT amo) = Inr True \<longrightarrow>
            check_addon_ownership amo request addon dev True ignore_disabled = Inr True)
       \<and> (status addon = STATUS_DISABLED amo
            \<and> (admin \<longrightarrow> action_allowed amo request (ADDONS_EDIT amo) = Inr False) \<longrightarrow>
            check_addon_ownership amo request addon dev admin False = Inr False)"
  using assms by (simp add: check_addon_ownership_def)

lemma match_rules_addons_edit: "match_rules ''Addons:Edit'' ''Addons'' ''Edit'' = Inr True"
  by (simp add: match_rules_def)

lemma sample_editor:
  "action_allowed sample_amo \<lparr>user = sample_user True [''Addons:Edit'']\<rparr> (ADDONS_EDIT sample_amo)
     = Inr True"
  by (simp add: action_allowed_def action_allowed_user_def sample_user_def sample_amo_def
      match_rules_addons_edit)

lemma sample_owner_only:
  "action_allowed sample_amo \<lparr>user = sample_user True [''Stats:View'']\<rparr> (ADDONS_EDIT sample_amo)
     = Inr False"
  by (simp add: action_allowed_def action_allowed_user_def sample_user_def sample_amo_def
      match_rules_other_domain)

theorem check_addon_ownership_deleted_admin_disabled_witness:
  "check_addon_ownership sample_amo \<lparr>user = sample_user True [''Addons:Edit'']\<rparr>
      (sample_addon True 4) False True False = Inr False
   \<and> check_addon_ownership sample_amo \<lparr>user = sample_user True [''Addons:Edit'']\<rparr>
      (sample_addon False 5) False True False = Inr True
   \<and> check_addon_ownership sample_amo \<lparr>user = sample_user True [''Stats:View'']\<rparr>
      (sample_addon False 5) False True False = Inr False
   \<and> check_addon_ownership sample_amo \<lparr>user = sample_user True [''Stats:View'']\<rparr>
      (sample_addon False 5) False True True = Inr True"
proof -
  let ?ed = "\<lparr>user = sample_user True [''Addons:Edit'']\<rparr>"
  let ?ow = "\<lparr>user = sample_user True [''Stats:View'']\<rparr>"
  have ed: "is_authenticated (user ?ed)" by (simp add: sample_user_def)
  have ow: "is_authenticated (user ?ow)" by (simp add: sample_user_def)
  have del: "is_deleted (sample_addon True 4)" by (simp add: sample_addon_def)
  have dis: "\<not> is_deleted (sample_addon False 5)"
    "status (sample_addon False 5) = STATUS_DISABLED sample_amo"
    by (simp_all add: sample_addon_def sample_amo_def)
  have a: "check_addon_ownership sample_amo ?ed (sample_addon True 4) False True False = Inr False"
    using check_addon_ownership_deleted_admin_disabled [OF ed, of "sample_addon True 4" sample_amo False True False]
      del by blast
  have b: "check_addon_ownership sample_amo ?ed (sample_addon False 5) False True False = Inr True"
    using check_addon_ownership_deleted_admin_disabled [OF ed, of "sample_addon False 5" sample_amo False True False]
      dis sample_editor by blast
  have c: "check_addon_ownership sample_amo ?ow (sample_addon False 5) False True False = Inr False"
    using check_addon_ownership_deleted_admin_disabled [OF ow, of "sample_addon False 5" sample_amo False True False]
      dis sample_owner_only by blast
  have d: "check_addon_ownership sample_amo ?ow (sample_addon False 5) False True True = Inr True"
    using sample_owner_only
    by (simp add: check_addon_ownership_def sample_user_def sample_addon_def sample_amo_def)
  show ?thesis using a b c d by simp
qed

section \<open>Submission predicates on data without the field\<close>

lemma endswith_empty: "endswith [] sufs \<longleftrightarrow> [] \<in> set sufs"
  by (induction sufs) (auto simp add: endswith_def)

text \<open>
  C6 (as the code has it): a submission predicate called on parsed add-on data without its
  field reads the field with \<open>get\<close> and goes on with the default. Without
  \<open>is_experiment\<close>, \<open>type\<close> or \<open>is_mozilla_signed_extension\<close> the predicate returns true
  for every user; without \<open>guid\<close> it answers as for the empty guid, which is true when no
  reserved suffix is empty. No error comes from the absence.
\<close>

theorem submission_predicates_missing_field:
  "(d ''is_experiment'' = None \<longrightarrow> experiments_submission_allowed amo u d = Inr True)
   \<and> (d ''guid'' = None \<longrightarrow>
        reserved_guid_addon_submission_allowed amo u d
          = reserved_guid_addon_submission_allowed amo u (d(''guid'' \<mapsto> PyStr []))
        \<and> ([] \<notin> set (RESERVED_ADDON_GUIDS amo) \<longrightarrow>
             reserved_guid_addon_submission_allowed amo u d = Inr True))
   \<and> (d ''type'' = None \<longrightarrow> langpack_submission_allowed amo u d = Inr True)
   \<and> (d ''is_mozilla_signed_extension'' = None \<longrightarrow>
        mozilla_signed_extension_submission_allowed amo u d = Inr True)"
  by (simp add: experiments_submission_allowed_def reserved_guid_addon_submission_allowed_def
      langpack_submission_allowed_def mozilla_signed_extension_submission_allowed_def
      dict_get_def lower_def endswith_empty)

theorem submission_predicates_missing_field_witness:
  "experiments_submission_allowed sample_amo (sample_user True []) Map.empty = Inr True
   \<and> reserved_guid_addon_submission_allowed sample_amo (sample_user True []) Map.empty = Inr True
   \<and> langpack_submission_allowed sample_amo (sample_user True []) Map.empty = Inr True
   \<and> mozilla_signed_extension_submission_allowed sample_amo (sample_user True []) Map.empty
       = Inr True"
proof -
  have "[] \<notin> set (RESERVED_ADDON_GUIDS sample_amo)"
    by (simp add: sample_amo_def)
  then show ?thesis
    using submission_predicates_missing_field [of Map.empty sample_amo "sample_user True []"]
    by blast
qed

text \<open>
  C6 (as the specification states it) fails on the empty dictionary: both predicates the
  claim names return true there.
\<close>

theorem submission_predicates_missing_field_counterexample:
  "Map.empty ''is_experiment'' = (None :: pyval option)
   \<and> experiments_submission_allowed sample_amo (sample_user True []) Map.empty = Inr True
   \<and> Map.empty ''guid'' = (None :: pyval option)
   \<and> reserved_guid_addon_submission_allowed sample_amo (sample_user True []) Map.empty = Inr True"
  by (simp add: experiments_submission_allowed_def reserved_guid_addon_submission_allowed_def
      dict_get_def lower_def endswith_def sample_amo_def)

section \<open>Ownership of a collection\<close>

text \<open>
  C9: for an authenticated user who is not the author of the collection and for whom the
  curation test, made when the collection belongs to the task user, answers false,
  \<open>check_collection_ownership\<close> with \<open>require_owner=True\<close> returns false, whatever the
  collection and the contribute permission are; with \<open>require_owner=False\<close> it returns
  true exactly when the collection is the featured-themes collection and the user holds
  the contribute permission.
\<close>

theorem check_collection_ownership_non_owner:
  assumes "is_authenticated (user request)"
    and "Some (user_id (user request)) \<noteq> author_id collection"
    and "author_id collection = Some (TASK_USER_ID settings) \<longrightarrow>
         action_allowed_user amo (user request) (ADMIN_CURATION amo) = Inr False"
  shows "check_collection_ownership amo settings request collection True = Inr False
       \<and> (check_collection_ownership amo settings request collection False = Inr True \<longleftrightarrow>
            pk collection = COLLECTION_FEATURED_THEMES_ID settings
            \<and> action_allowed_user amo (user request) (COLLECTIONS_CONTRIBUTE amo) = Inr True)"
  using assms by (simp add: check_collection_ownership_def)

lemma match_rules_contribute:
  "match_rules ''Collections:Contribute'' ''Collections'' ''Contribute'' = Inr True"
  by (simp add: match_rules_def)

lemma match_rules_contribute_curation:
  "match_rules ''Collections:Contribute'' ''Admin'' ''Curation'' = Inr False"
  by (simp add: match_rules_def)

theorem check_collection_ownership_non_owner_witness:
  "check_collection_ownership sample_amo sample_settings
      \<lparr>user = sample_user True [''Collections:Contribute'']\<rparr>
      \<lparr>pk = 2143965, author_id = Some 4757633\<rparr> True = Inr False
   \<and> check_collection_ownership sample_amo sample_settings
      \<lparr>user = sample_user True [''Collections:Contribute'']\<rparr>
      \<lparr>pk = 2143965, author_id = Some 4757633\<rparr> False = Inr True"
proof -
  let ?r = "\<lparr>user = sample_user True [''Collections:Contribute'']\<rparr>"
  let ?c = "\<lparr>pk = 2143965, author_id = Some 4757633\<rparr>"
  have a: "is_authenticated (user ?r)" by (simp add: sample_user_def)
  have b: "Some (user_id (user ?r)) \<noteq> author_id ?c" by (simp add: sample_user_def)
  have c: "author_id ?c = Some (TASK_USER_ID sample_settings) \<longrightarrow>
         action_allowed_user sample_amo (user ?r) (ADMIN_CURATION sample_amo) = Inr False"
    by (simp add: action_allowed_user_def sample_user_def sample_amo_def
        match_rules_contribute_curation)
  have d: "pk ?c = COLLECTION_FEATURED_THEMES_ID sample_settings
      \<and> action_allowed_user sample_amo (user ?r) (COLLECTIONS_CONTRIBUTE sample_amo) = Inr True"
    by (simp add: action_allowed_user_def sample_user_def sample_amo_def sample_settings_def
        match_rules_contribute)
  show ?thesis
    using check_collection_ownership_non_owner [OF a b c] d by blast
qed

section \<open>The generic ownership check\<close>

text \<open>
  C10: on an object without a \<open>check_ownership\<close> attribute the generic
  \<open>check_ownership\<close> returns false for all values of the four flags, without raising; on an
  object with the attribute, the result is what the object's method returns for the
  request and those flags.
\<close>

theorem check_ownership_delegates:
  "(check_ownership_attr obj = None \<longrightarrow>
      check_ownership request obj require_owner require_author ignore_disabled admin = Inr False)
   \<and> (\<forall>m. check_ownership_attr obj = Some m \<longrightarrow>
        check_ownership request obj require_owner require_author ignore_disabled admin
          = m request require_owner require_author ignore_disabled admin)"
  by (simp add: check_ownership_def)

theorem check_ownership_delegates_witness:
  "check_ownership \<lparr>user = sample_user True []\<rparr> \<lparr>check_ownership_attr = None\<rparr>
      True True True True = Inr False
   \<and> check_ownership \<lparr>user = sample_user True []\<rparr>
      \<lparr>check_ownership_attr = Some (\<lambda>rq ro ra ign ad. Inr (ro \<and> \<not> ra))\<rparr>
      True False True True = Inr True
   \<and> check_ownership \<lparr>user = sample_user True []\<rparr>
      \<lparr>check_ownership_attr = Some (\<lambda>rq ro ra ign ad. Inl AttributeError)\<rparr>
      True False True True = Inl AttributeError"
proof -
  let ?rq = "\<lparr>user = sample_user True []\<rparr>"
  have a: "check_ownership ?rq \<lparr>check_ownership_attr = None\<rparr> True True True True = Inr False"
    using check_ownership_delegates [of "\<lparr>check_ownership_attr = None\<rparr>" ?rq True True True True]
    by simp
  have b: "check_ownership ?rq
      \<lparr>check_ownership_attr = Some (\<lambda>rq ro ra ign ad. Inr (ro \<and> \<not> ra))\<rparr>
      True False True True = Inr True"
    using check_ownership_delegates
      [of "\<lparr>check_ownership_attr = Some (\<lambda>rq ro ra ign ad. Inr (ro \<and> \<not> ra))\<rparr>" ?rq
          True False True True]
    by simp
  have c: "check_ownership ?rq
      \<lparr>check_ownership_attr = Some (\<lambda>rq ro ra ign ad. Inl AttributeError)\<rparr>
      True False True True = Inl AttributeError"
    using check_ownership_delegates
      [of "\<lparr>check_ownership_attr = Some (\<lambda>rq ro ra ign ad. Inl AttributeError)\<rparr>" ?rq
          True False True True]
    by simp
  show ?thesis using a b c by simp
qed

end
